theory Spec2Isabelle
  imports Main "HOL-Library.Char_ord" "HOL-Library.List_Lexorder" "HOL-Library.Multiset"
begin

section \<open>Text primitives of the host language\<close>

text \<open>
  Source text is modelled as \<^typ>\<open>string\<close> over ASCII. The host language's
  \<^verbatim>\<open>trim\<close>, \<^verbatim>\<open>toUpperCase\<close>, \<^verbatim>\<open>toLowerCase\<close>, \<^verbatim>\<open>startsWith\<close>, \<^verbatim>\<open>includes\<close> and
  \<^verbatim>\<open>split\<close> are written out below; case mapping acts on the 26 ASCII letters and
  leaves every other character as it is.
\<close>

definition toUpperChar :: "char \<Rightarrow> char" where
  "toUpperChar c =
     (case map_of (zip ''abcdefghijklmnopqrstuvwxyz'' ''ABCDEFGHIJKLMNOPQRSTUVWXYZ'') c of
        Some u \<Rightarrow> u
      | None \<Rightarrow> c)"

definition toLowerChar :: "char \<Rightarrow> char" where
  "toLowerChar c =
     (case map_of (zip ''ABCDEFGHIJKLMNOPQRSTUVWXYZ'' ''abcdefghijklmnopqrstuvwxyz'') c of
        Some l \<Rightarrow> l
      | None \<Rightarrow> c)"

definition toUpperCase :: "string \<Rightarrow> string" where
  "toUpperCase s = map toUpperChar s"

definition toLowerCase :: "string \<Rightarrow> string" where
  "toLowerCase s = map toLowerChar s"

text \<open>
  White space and line terminators removed by \<^verbatim>\<open>trim\<close>: TAB, LF, VT, FF, CR, SPACE. The
  further white-space characters of the host language (such as U+00A0) lie outside ASCII
  and so outside the texts modelled here.
\<close>

definition isWhiteSpace :: "char \<Rightarrow> bool" where
  "isWhiteSpace c = (c \<in> set [CHR 0x09, CHR 0x0A, CHR 0x0B, CHR 0x0C, CHR 0x0D, CHR 0x20])"

definition trim :: "string \<Rightarrow> string" where
  "trim s = rev (dropWhile isWhiteSpace (rev (dropWhile isWhiteSpace s)))"

definition startsWith :: "string \<Rightarrow> string \<Rightarrow> bool" where
  "startsWith s p = (take (length p) s = p)"

text \<open>\<^verbatim>\<open>s.includes(k)\<close>: \<open>k\<close> occurs in \<open>s\<close> as a contiguous run.\<close>

fun includes_str :: "string \<Rightarrow> string \<Rightarrow> bool" where
  "includes_str [] k = (k = [])"
| "includes_str (c # cs) k = (startsWith (c # cs) k \<or> includes_str cs k)"

text \<open>
  \<^verbatim>\<open>s.split(sep)\<close> for a one-character separator: the pieces between separators, in
  order; the empty text gives one empty piece.
\<close>

fun split :: "char \<Rightarrow> string \<Rightarrow> string list" where
  "split sep [] = [[]]"
| "split sep (c # cs) =
     (if c = sep then [] # split sep cs
      else (case split sep cs of
              [] \<Rightarrow> [[c]]
            | seg # segs \<Rightarrow> (c # seg) # segs))"

section \<open>Result values\<close>

text \<open>
  A cell of a result row is a value of the host language (\<^verbatim>\<open>any\<close> in the source). The
  functions below only copy and print cells, so a number is carried as its canonical
  decimal rendering (what \<^verbatim>\<open>String(n)\<close> gives: \<^verbatim>\<open>30\<close>, \<^verbatim>\<open>999.99\<close>, \<^verbatim>\<open>NaN\<close>).
\<close>

datatype jsval = JUndefined | JNull | JBool bool | JNum string | JStr string

record QueryResult =
  columns :: "string list"
  rows :: "jsval list list"

text \<open>
  \<^verbatim>\<open>ValidationResult\<close>: \<open>error = None\<close> is the source's \<^verbatim>\<open>error: null\<close>; \<open>result = None\<close> an
  absent \<^verbatim>\<open>result\<close> field. The classifier's Allow is \<open>error = None\<close>, its Reject a
  present error message.
\<close>

record ValidationResult =
  error :: "string option"
  result :: "QueryResult option"

section \<open>Statement classifier\<close>

definition ALLOWED_STATEMENTS :: "string list" where
  "ALLOWED_STATEMENTS = [''SELECT'']"

definition FORBIDDEN_KEYWORDS :: "string list" where
  "FORBIDDEN_KEYWORDS =
     [''DROP'', ''DELETE'', ''UPDATE'', ''INSERT'', ''ALTER'', ''CREATE'', ''TRUNCATE'',
      ''REPLACE'', ''MERGE'', ''CALL'', ''EXPLAIN'', ''LOCK'', ''GRANT'', ''REVOKE'']"

text \<open>
  \<^verbatim>\<open>preValidateSQL\<close>. The \<^verbatim>\<open>for\<close> loop over the vocabulary returns at the first keyword
  that occurs, which is \<^const>\<open>find\<close>. \<^verbatim>\<open>trimmedSQL.split(' ')[0]\<close> is the first piece of
  a split, which always exists.
\<close>

definition preValidateSQL :: "string \<Rightarrow> ValidationResult" where
  "preValidateSQL sql =
     (let trimmedSQL = toUpperCase (trim sql) in
      if trimmedSQL = [] then
        \<lparr>error = Some ''SQL query cannot be empty'', result = None\<rparr>
      else
        (case find (\<lambda>keyword. includes_str trimmedSQL keyword) FORBIDDEN_KEYWORDS of
           Some keyword \<Rightarrow>
             \<lparr>error = Some (''Operation not allowed: '' @ keyword @
                             ''. Only SELECT statements are permitted.''),
              result = None\<rparr>
         | None \<Rightarrow>
             if \<not> list_ex (\<lambda>stmt. startsWith trimmedSQL stmt) ALLOWED_STATEMENTS then
               \<lparr>error = Some (''Only SELECT statements are allowed. Found: '' @
                               (case split (CHR '' '') trimmedSQL of
                                  [] \<Rightarrow> ''undefined''
                                | tok # _ \<Rightarrow> tok)),
                result = None\<rparr>
             else
               (let statements = filter (\<lambda>s. trim s \<noteq> []) (split (CHR '';'') sql) in
                if length statements > 1 then
                  \<lparr>error = Some ''Multiple statements are not allowed. Please use a single SELECT statement.'',
                   result = None\<rparr>
                else \<lparr>error = None, result = None\<rparr>)))"

section \<open>Sandbox executor\<close>

text \<open>
  The SQL engine is an external library. What it hands to the callback of \<^verbatim>\<open>db.all\<close> is
  modelled as an \<open>engine_outcome\<close>: the timer fired first (\<open>TimedOut\<close>), the engine
  reported an error with a message (\<open>Failed\<close>), or it returned rows (\<open>Returned\<close>). A row
  is an object keyed by column name; it is an association list whose keys are in the
  order \<^verbatim>\<open>Object.keys\<close> lists them.
\<close>

type_synonym row = "(string \<times> jsval) list"

datatype engine_outcome = TimedOut | Failed string | Returned "row list"

record Database =
  users :: "row list"
  products :: "row list"

text \<open>
  The seed of the sandbox: the two \<^verbatim>\<open>CREATE TABLE\<close> and two \<^verbatim>\<open>INSERT\<close> statements of
  \<^verbatim>\<open>executeSQLInSandbox\<close>. The \<^verbatim>\<open>INSERT\<close> into \<^verbatim>\<open>users\<close> names the columns name, email
  and age only: \<^verbatim>\<open>id\<close> is the integer primary key the engine assigns (1 to 5), and
  \<^verbatim>\<open>created_at\<close> takes its declared default \<^verbatim>\<open>CURRENT_TIMESTAMP\<close>, the text of the clock
  when the row is inserted. That clock reading is the argument \<open>now\<close>.
\<close>

definition seedUser :: "string \<Rightarrow> string \<Rightarrow> string \<Rightarrow> string \<Rightarrow> string \<Rightarrow> row" where
  "seedUser now ident name email age =
     [(''id'', JNum ident), (''name'', JStr name), (''email'', JStr email),
      (''age'', JNum age), (''created_at'', JStr now)]"

definition seedProduct :: "string \<Rightarrow> string \<Rightarrow> string \<Rightarrow> string \<Rightarrow> string \<Rightarrow> row" where
  "seedProduct ident name price category in_stock =
     [(''id'', JNum ident), (''name'', JStr name), (''price'', JNum price),
      (''category'', JStr category), (''in_stock'', JNum in_stock)]"

definition seedDatabase :: "string \<Rightarrow> Database" where
  "seedDatabase now =
     \<lparr>users =
        [seedUser now ''1'' ''John Doe'' ''john@example.com'' ''30'',
         seedUser now ''2'' ''Jane Smith'' ''jane@example.com'' ''25'',
         seedUser now ''3'' ''Bob Johnson'' ''bob@example.com'' ''35'',
         seedUser now ''4'' ''Alice Wilson'' ''alice@example.com'' ''28'',
         seedUser now ''5'' ''Charlie Brown'' ''charlie@example.com'' ''32''],
      products =
        [seedProduct ''1'' ''Laptop'' ''999.99'' ''Electronics'' ''1'',
         seedProduct ''2'' ''Mouse'' ''29.99'' ''Electronics'' ''1'',
         seedProduct ''3'' ''Desk Chair'' ''199.99'' ''Furniture'' ''0'',
         seedProduct ''4'' ''Coffee Mug'' ''12.99'' ''Kitchen'' ''1'',
         seedProduct ''5'' ''Notebook'' ''5.99'' ''Office'' ''1'']\<rparr>"

text \<open>
  The engine as it behaves during one invocation: from the clock reading of the
  invocation, the seeded database, the query text and the timeout (milliseconds) to what
  the callback sees. The engine's random source and the load of the machine, which
  decides the race between the query and the timer, are not arguments: they are part of
  which function the engine is during an invocation, so two invocations may meet two
  different functions.
\<close>

type_synonym engine = "string \<Rightarrow> Database \<Rightarrow> string \<Rightarrow> int \<Rightarrow> engine_outcome"

text \<open>
  \<^verbatim>\<open>rows.slice(0, maxRows)\<close> for an integral \<open>maxRows\<close>: a negative end counts from the
  end of the array, and the end is clamped to the array.
\<close>

definition slice0 :: "'a list \<Rightarrow> int \<Rightarrow> 'a list" where
  "slice0 xs stop =
     (let len = int (length xs);
          final = (if stop < 0 then max (len + stop) 0 else min stop len)
      in take (nat final) xs)"

text \<open>\<^verbatim>\<open>row[col]\<close>: the value under the key, \<^verbatim>\<open>undefined\<close> when the row has no such key.\<close>

definition property :: "row \<Rightarrow> string \<Rightarrow> jsval" where
  "property r col = (case map_of r col of None \<Rightarrow> JUndefined | Some v \<Rightarrow> v)"

text \<open>
  \<^verbatim>\<open>executeSQLInSandbox\<close> at clock reading \<open>now\<close>. Shaping the returned rows cannot throw
  on an array of row objects, so the source's handler for a processing error has no
  branch here.
\<close>

definition executeSQLInSandbox :: "engine \<Rightarrow> string \<Rightarrow> string \<Rightarrow> int \<Rightarrow> int \<Rightarrow> ValidationResult" where
  "executeSQLInSandbox eng now sql timeoutMs maxRows =
     (case eng now (seedDatabase now) sql timeoutMs of
        TimedOut \<Rightarrow> \<lparr>error = Some ''Query execution timeout'', result = None\<rparr>
      | Failed message \<Rightarrow> \<lparr>error = Some (''SQL Error: '' @ message), result = None\<rparr>
      | Returned rs \<Rightarrow>
          (let limitedRows = slice0 rs maxRows;
               cols = (case limitedRows of [] \<Rightarrow> [] | r # _ \<Rightarrow> map fst r);
               rowsArray = map (\<lambda>r. map (\<lambda>col. property r col) cols) limitedRows
           in \<lparr>error = None, result = Some \<lparr>columns = cols, rows = rowsArray\<rparr>\<rparr>))"

text \<open>
  \<^verbatim>\<open>run\<close>: classify first; only a text the classifier lets through reaches the sandbox.
\<close>

definition run :: "engine \<Rightarrow> string \<Rightarrow> string \<Rightarrow> int \<Rightarrow> int \<Rightarrow> ValidationResult" where
  "run eng now sql timeoutMs maxRows =
     (let preValidation = preValidateSQL sql in
      case error preValidation of
        Some (c # cs) \<Rightarrow> preValidation
      | _ \<Rightarrow> executeSQLInSandbox eng now sql timeoutMs maxRows)"

text \<open>
  An engine for evaluating the executor on concrete queries. It answers the two
  full-table queries as the SQL engine does (every row of the table in insertion order,
  columns in declaration order) and does not describe the engine on any other text,
  where it reports an error.
\<close>

definition tableScanEngine :: engine where
  "tableScanEngine now db sql timeoutMs =
     (if sql = ''SELECT * FROM users;'' then Returned (users db)
      else if sql = ''SELECT * FROM products;'' then Returned (products db)
      else Failed ''unsupported query'')"

text \<open>
  The engine during an invocation in which its random source yields the number \<open>r\<close>, for
  evaluating the executor on the query \<^verbatim>\<open>SELECT random();\<close>: one row with the one column
  \<^verbatim>\<open>random()\<close>. It does not describe the engine on any other text.
\<close>

definition randomEngine :: "string \<Rightarrow> engine" where
  "randomEngine r now db sql timeoutMs =
     (if sql = ''SELECT random();'' then Returned [[(''random()'', JNum r)]]
      else Failed ''unsupported query'')"


section \<open>JSON text\<close>

text \<open>
  \<^verbatim>\<open>JSON.stringify\<close> on the values that occur: strings, numbers, booleans, \<^verbatim>\<open>null\<close>,
  arrays, and the two object literals the source serialises. A string is quoted, with
  the quotation mark, the reverse solidus and the control characters escaped.
\<close>

definition hexDigit :: "nat \<Rightarrow> char" where
  "hexDigit n = ''0123456789abcdef'' ! (n mod 16)"

definition escapeChar :: "char \<Rightarrow> string" where
  "escapeChar c =
     (if c = CHR 0x22 then [CHR 0x5C, CHR 0x22]
      else if c = CHR 0x5C then [CHR 0x5C, CHR 0x5C]
      else if c = CHR 0x08 then [CHR 0x5C, CHR ''b'']
      else if c = CHR 0x09 then [CHR 0x5C, CHR ''t'']
      else if c = CHR 0x0A then [CHR 0x5C, CHR ''n'']
      else if c = CHR 0x0C then [CHR 0x5C, CHR ''f'']
      else if c = CHR 0x0D then [CHR 0x5C, CHR ''r'']
      else if (of_char c :: nat) < 32 then
        [CHR 0x5C] @ ''u00'' @ [hexDigit (of_char c div 16), hexDigit (of_char c)]
      else [c])"

definition quoteJSON :: "string \<Rightarrow> string" where
  "quoteJSON s = [CHR 0x22] @ concat (map escapeChar s) @ [CHR 0x22]"

fun joinWith :: "string \<Rightarrow> string list \<Rightarrow> string" where
  "joinWith sep [] = []"
| "joinWith sep [x] = x"
| "joinWith sep (x # y # ys) = x @ sep @ joinWith sep (y # ys)"

text \<open>An array whose elements are already serialised.\<close>

definition arrayJSON :: "string list \<Rightarrow> string" where
  "arrayJSON elems = ''['' @ joinWith '','' elems @ '']''"

text \<open>
  A cell inside an array: \<^verbatim>\<open>undefined\<close>, \<^verbatim>\<open>NaN\<close> and the infinities print as \<^verbatim>\<open>null\<close>; any
  other number prints as its decimal rendering.
\<close>

definition stringifyValue :: "jsval \<Rightarrow> string" where
  "stringifyValue v =
     (case v of
        JUndefined \<Rightarrow> ''null''
      | JNull \<Rightarrow> ''null''
      | JBool b \<Rightarrow> (if b then ''true'' else ''false'')
      | JNum n \<Rightarrow> (if n \<in> set [''NaN'', ''Infinity'', ''-Infinity''] then ''null'' else n)
      | JStr s \<Rightarrow> quoteJSON s)"

definition stringifyRow :: "jsval list \<Rightarrow> string" where
  "stringifyRow cells = arrayJSON (map stringifyValue cells)"

text \<open>The decimal rendering of a count (\<^verbatim>\<open>rows.length\<close>).\<close>

fun showNat :: "nat \<Rightarrow> string" where
  "showNat n =
     (if n < 10 then [''0123456789'' ! n]
      else showNat (n div 10) @ [''0123456789'' ! (n mod 10)])"

declare showNat.simps [simp del]

section \<open>Result normalizer\<close>

text \<open>
  \<^verbatim>\<open>Array.prototype.sort\<close> with a compare function is a stable sort; it is written as a
  stable insertion sort. The compare function returns a negative number, zero or a
  positive number.
\<close>

fun insertBy :: "('a \<Rightarrow> 'a \<Rightarrow> int) \<Rightarrow> 'a \<Rightarrow> 'a list \<Rightarrow> 'a list" where
  "insertBy cmp x [] = [x]"
| "insertBy cmp x (y # ys) = (if cmp x y \<le> 0 then x # y # ys else y # insertBy cmp x ys)"

definition sortBy :: "('a \<Rightarrow> 'a \<Rightarrow> int) \<Rightarrow> 'a list \<Rightarrow> 'a list" where
  "sortBy cmp xs = foldr (insertBy cmp) xs []"

text \<open>
  \<^verbatim>\<open>normalizeResult\<close>. The column names are sorted by \<^verbatim>\<open>sort()\<close> without a compare
  function, which orders strings by their code units: that is \<^const>\<open>sort\<close> in the
  lexicographic order on \<^typ>\<open>string\<close>. The rows are copied and sorted by
  \<^verbatim>\<open>localeCompare\<close> of their JSON texts; the collation is the platform's, so
  \<open>localeCompare\<close> is a parameter. The cells inside a row are left where they are.
\<close>

definition normalizeResult :: "(string \<Rightarrow> string \<Rightarrow> int) \<Rightarrow> QueryResult \<Rightarrow> string" where
  "normalizeResult localeCompare res =
     (let sortedColumns = sort (columns res);
          sortedRows = sortBy (\<lambda>a b. localeCompare (stringifyRow a) (stringifyRow b)) (rows res)
      in ''{'' @ quoteJSON ''columns'' @ '':'' @ arrayJSON (map quoteJSON sortedColumns) @
         '','' @ quoteJSON ''rows'' @ '':'' @ arrayJSON (map stringifyRow sortedRows) @ ''}'')"

text \<open>A compare function by code units, for evaluating the normalizer on concrete rows.\<close>

definition codeUnitCompare :: "string \<Rightarrow> string \<Rightarrow> int" where
  "codeUnitCompare a b = (if a < b then - 1 else if a = b then 0 else 1)"

section \<open>Feedback service: data\<close>

record AIResponse =
  feedback :: string
  suggestions :: "string list option"
  explanation :: "string option"
  nextSteps :: "string list option"

record SQLContext =
  userSQL :: string
  expectedSQL :: "string option"
  userResult :: "QueryResult option"
  expectedResult :: "QueryResult option"
  exercisePrompt :: string
  difficulty :: string
  isCorrect :: bool
  validationError :: "string option"

record AIProviderConfig =
  baseUrl :: string
  model :: string
  timeout :: int
  maxRetries :: int

text \<open>An entry of \<^verbatim>\<open>responseCache\<close>; timestamps are milliseconds on the clock of \<^verbatim>\<open>Date.now()\<close>.\<close>

record CacheEntry =
  response :: AIResponse
  timestamp :: int

type_synonym responseCache = "string \<rightharpoonup> CacheEntry"

definition CACHE_TTL :: int where
  "CACHE_TTL = 1000 * 60 * 60"

section \<open>Feedback service: cache\<close>

text \<open>
  \<^verbatim>\<open>Buffer.from(text).toString('base64')\<close> on the bytes of an ASCII text.
\<close>

definition base64Char :: "nat \<Rightarrow> char" where
  "base64Char n =
     ''ABCDEFGHIJKLMNOPQRSTUVWXYZabcdefghijklmnopqrstuvwxyz0123456789+/'' ! (n mod 64)"

fun base64 :: "nat list \<Rightarrow> string" where
  "base64 [] = []"
| "base64 [a] = [base64Char (a div 4), base64Char ((a mod 4) * 16), CHR ''='', CHR ''='']"
| "base64 [a, b] =
     [base64Char (a div 4), base64Char ((a mod 4) * 16 + b div 16),
      base64Char ((b mod 16) * 4), CHR ''='']"
| "base64 (a # b # c # bytes) =
     [base64Char (a div 4), base64Char ((a mod 4) * 16 + b div 16),
      base64Char ((b mod 16) * 4 + c div 64), base64Char (c mod 64)] @ base64 bytes"

text \<open>
  \<^verbatim>\<open>createCacheKey\<close>. \<^verbatim>\<open>validationError || null\<close> turns an absent or empty error into
  \<^verbatim>\<open>null\<close>; an absent result gives no columns and the row count 0.
\<close>

definition createCacheKey :: "SQLContext \<Rightarrow> string" where
  "createCacheKey context =
     (let keyData =
        ''{'' @ quoteJSON ''sql'' @ '':'' @ quoteJSON (toLowerCase (trim (userSQL context))) @
        '','' @ quoteJSON ''prompt'' @ '':'' @ quoteJSON (exercisePrompt context) @
        '','' @ quoteJSON ''error'' @ '':'' @
          (case validationError context of
             Some (c # cs) \<Rightarrow> quoteJSON (c # cs)
           | _ \<Rightarrow> ''null'') @
        '','' @ quoteJSON ''isCorrect'' @ '':'' @
          (if isCorrect context then ''true'' else ''false'') @
        '','' @ quoteJSON ''resultColumns'' @ '':'' @
          (case userResult context of
             Some r \<Rightarrow> arrayJSON (map quoteJSON (columns r))
           | None \<Rightarrow> arrayJSON []) @
        '','' @ quoteJSON ''resultRowCount'' @ '':'' @
          (case userResult context of
             Some r \<Rightarrow> showNat (length (rows r))
           | None \<Rightarrow> showNat 0) @
        ''}''
      in base64 (map of_char keyData))"

text \<open>
  \<^verbatim>\<open>getCachedResponse\<close> at clock reading \<open>now\<close>: the payload and the cache afterwards. An
  entry younger than the TTL is returned; any other entry is deleted.
\<close>

definition getCachedResponse ::
  "responseCache \<Rightarrow> string \<Rightarrow> int \<Rightarrow> AIResponse option \<times> responseCache" where
  "getCachedResponse cache key now =
     (case cache key of
        Some cached \<Rightarrow>
          if now - timestamp cached < CACHE_TTL then (Some (response cached), cache)
          else (None, cache(key := None))
      | None \<Rightarrow> (None, cache))"

definition cacheResponse :: "responseCache \<Rightarrow> string \<Rightarrow> AIResponse \<Rightarrow> int \<Rightarrow> responseCache" where
  "cacheResponse cache key resp now = cache(key \<mapsto> \<lparr>response = resp, timestamp = now\<rparr>)"

section \<open>Feedback service: fallback rule\<close>

definition getFallbackResponse :: "SQLContext \<Rightarrow> AIResponse" where
  "getFallbackResponse context =
     (case validationError context of
        Some (c # cs) \<Rightarrow>
          \<lparr>feedback = ''I encountered an issue with your SQL query: '' @ (c # cs) @
             ''. Please check your syntax and try again. Remember, only SELECT statements are allowed in this exercise.'',
           suggestions = Some [''Check your SQL syntax'',
                               ''Ensure you'' @ [CHR 0x27] @ ''re using SELECT statements only''],
           explanation = None, nextSteps = None\<rparr>
      | _ \<Rightarrow>
          (case (if isCorrect context then userResult context else None) of
             Some r \<Rightarrow>
               \<lparr>feedback = ''Great job! Your query executed successfully and returned '' @
                  showNat (length (rows r)) @
                  '' row(s). Your SQL syntax is correct and you'' @ [CHR 0x27] @
                  ''re getting real data from the database. Keep practicing with more complex queries!'',
                suggestions = Some [''Try adding WHERE clauses'',
                                    ''Experiment with different column selections''],
                explanation = None, nextSteps = None\<rparr>
           | None \<Rightarrow>
               \<lparr>feedback = ''Your query has been processed. The AI tutor is temporarily unavailable, but you can continue practicing. Check if your query returns the expected results.'',
                suggestions = Some [''Review the exercise requirements'',
                                    ''Test your query step by step''],
                explanation = None, nextSteps = None\<rparr>))"

section \<open>Feedback service: calling the reasoning service\<close>

text \<open>
  What one \<^verbatim>\<open>fetch\<close> of \<^verbatim>\<open>/api/generate\<close> comes to: the transport failed with a
  message (a failure to parse the body as JSON is such a failure), the deadline aborted
  the request, the service answered with a status that is not OK, or it answered OK with
  a body whose \<^verbatim>\<open>response\<close> field is absent (\<open>None\<close>) or a text.
\<close>

datatype attempt_outcome =
    TransportError string
  | Aborted
  | HttpError nat string
  | Ok "string option"

text \<open>
  The effects of a call, in the order they happen: an outbound request (with its attempt
  number), a wait (milliseconds), an insert into the cache (with its key).
\<close>

datatype effect = Fetch int | Wait nat | CacheSet string

definition parseAIResponse :: "string \<Rightarrow> SQLContext \<Rightarrow> AIResponse" where
  "parseAIResponse aiMessage context =
     \<lparr>feedback = trim aiMessage, suggestions = Some [], explanation = Some [],
      nextSteps = Some []\<rparr>"

text \<open>The message of the error an attempt leaves in \<^verbatim>\<open>lastError\<close>.\<close>

definition showInt :: "int \<Rightarrow> string" where
  "showInt i = (if i < 0 then ''-'' @ showNat (nat (- i)) else showNat (nat i))"

definition attemptError :: "AIProviderConfig \<Rightarrow> attempt_outcome \<Rightarrow> string" where
  "attemptError config outcome =
     (case outcome of
        TransportError message \<Rightarrow> message
      | Aborted \<Rightarrow> ''AI request timeout after '' @ showInt (timeout config) @ ''ms''
      | HttpError status statusText \<Rightarrow>
          ''Ollama API error: '' @ showNat status @ '' '' @ statusText
      | Ok _ \<Rightarrow> [])"

text \<open>
  The retry loop of \<^verbatim>\<open>callAI\<close>, from attempt number \<open>attempt\<close> on. The reasoning service
  is the function \<open>service\<close> from the attempt number to what that attempt's request comes
  to. The loop returns the parsed payload (\<open>Inr\<close>) or the message of the error it throws
  (\<open>Inl\<close>), with the effects it had. \<open>maxRetries\<close> is an integer; a configured value that
  does not parse as a number behaves like one below 1, for which the loop body never
  runs.
\<close>

function callAI_loop ::
  "AIProviderConfig \<Rightarrow> (int \<Rightarrow> attempt_outcome) \<Rightarrow> SQLContext \<Rightarrow> int \<Rightarrow> string \<Rightarrow>
   (string + AIResponse) \<times> effect list" where
  "callAI_loop config service context attempt lastError =
     (if attempt \<le> maxRetries config then
        (case service attempt of
           Ok data_response \<Rightarrow>
             (let aiMessage = (case data_response of
                                 Some (c # cs) \<Rightarrow> c # cs
                               | _ \<Rightarrow> ''No response from AI'')
              in (Inr (parseAIResponse aiMessage context), [Fetch attempt]))
         | failure \<Rightarrow>
             (let (outcome, effects) =
                    callAI_loop config service context (attempt + 1) (attemptError config failure)
              in (outcome,
                  Fetch attempt # (if attempt < maxRetries config then [Wait 2000] else []) @ effects)))
      else (Inl lastError, []))"
  by pat_completeness auto
termination
  by (relation "measure (\<lambda>(config, service, context, attempt, lastError).
                          nat (maxRetries config + 1 - attempt))") auto

declare callAI_loop.simps [simp del]

definition callAI ::
  "AIProviderConfig \<Rightarrow> (int \<Rightarrow> attempt_outcome) \<Rightarrow> SQLContext \<Rightarrow>
   (string + AIResponse) \<times> effect list" where
  "callAI config service context = callAI_loop config service context 1 ''AI request failed''"

text \<open>
  \<^verbatim>\<open>generateFeedback\<close> on a cache, with the clock readings of the lookup (\<open>lookupTime\<close>) and of
  the insert (\<open>insertTime\<close>): the payload, the cache afterwards and the effects. An error
  thrown by \<^verbatim>\<open>callAI\<close> is caught and answered by the fallback rule.
\<close>

definition generateFeedback ::
  "AIProviderConfig \<Rightarrow> (int \<Rightarrow> attempt_outcome) \<Rightarrow> int \<Rightarrow> int \<Rightarrow> SQLContext \<Rightarrow> responseCache \<Rightarrow>
   AIResponse \<times> responseCache \<times> effect list" where
  "generateFeedback config service lookupTime insertTime context cache =
     (let cacheKey = createCacheKey context;
          (cached, cache1) = getCachedResponse cache cacheKey lookupTime
      in case cached of
           Some hit \<Rightarrow> (hit, cache1, [])
         | None \<Rightarrow>
             (case callAI config service context of
                (Inr resp, effects) \<Rightarrow>
                  (resp, cacheResponse cache1 cacheKey resp insertTime,
                   effects @ [CacheSet cacheKey])
              | (Inl message, effects) \<Rightarrow>
                  (getFallbackResponse context, cache1, effects)))"

text \<open>Counting effects.\<close>

definition fetches :: "effect list \<Rightarrow> nat" where
  "fetches effects = length (filter (\<lambda>e. case e of Fetch _ \<Rightarrow> True | _ \<Rightarrow> False) effects)"

definition inserts :: "effect list \<Rightarrow> nat" where
  "inserts effects = length (filter (\<lambda>e. case e of CacheSet _ \<Rightarrow> True | _ \<Rightarrow> False) effects)"

text \<open>A request that did not get an OK answer.\<close>

definition failed :: "attempt_outcome \<Rightarrow> bool" where
  "failed outcome = (case outcome of Ok _ \<Rightarrow> False | _ \<Rightarrow> True)"


text \<open>Inputs for evaluating the service on concrete cases.\<close>

definition exampleConfig :: AIProviderConfig where
  "exampleConfig =
     \<lparr>baseUrl = ''http://localhost:11434'', model = ''codellama:7b'', timeout = 90000,
      maxRetries = 2\<rparr>"

definition exampleContext :: SQLContext where
  "exampleContext =
     \<lparr>userSQL = ''SELECT * FROM orders'', expectedSQL = None, userResult = None,
      expectedResult = None, exercisePrompt = ''List all orders'', difficulty = ''easy'',
      isCorrect = False, validationError = Some ''SQL Error: no such table: orders''\<rparr>"

section \<open>Properties of the text primitives\<close>

lemma startsWith_iff: "startsWith s p \<longleftrightarrow> (\<exists>post. s = p @ post)"
proof
  assume "startsWith s p"
  then have "s = p @ drop (length p) s"
    unfolding startsWith_def by (metis append_take_drop_id)
  then show "\<exists>post. s = p @ post" ..
next
  assume "\<exists>post. s = p @ post"
  then show "startsWith s p"
    unfolding startsWith_def by auto
qed

lemma includes_str_iff: "includes_str s k \<longleftrightarrow> (\<exists>pre post. s = pre @ k @ post)"
proof (induction s)
  case Nil
  show ?case by simp
next
  case (Cons c cs)
  show ?case
  proof
    assume "includes_str (c # cs) k"
    then consider "startsWith (c # cs) k" | "includes_str cs k" by auto
    then show "\<exists>pre post. c # cs = pre @ k @ post"
    proof cases
      case 1
      then obtain post where "c # cs = k @ post" using startsWith_iff by blast
      then have "c # cs = [] @ k @ post" by simp
      then show ?thesis by blast
    next
      case 2
      then obtain pre post where "cs = pre @ k @ post" using Cons.IH by blast
      then have "c # cs = (c # pre) @ k @ post" by simp
      then show ?thesis by blast
    qed
  next
    assume "\<exists>pre post. c # cs = pre @ k @ post"
    then obtain pre post where dec: "c # cs = pre @ k @ post" by blast
    show "includes_str (c # cs) k"
    proof (cases pre)
      case Nil
      with dec have "startsWith (c # cs) k" using startsWith_iff by auto
      then show ?thesis by simp
    next
      case (Cons p pre')
      with dec have "cs = pre' @ k @ post" by simp
      then have "includes_str cs k" using Cons.IH by blast
      then show ?thesis by simp
    qed
  qed
qed

lemma dropWhile_keeps_inner:
  assumes "ys \<noteq> []" and "\<not> P (hd ys)"
  shows "\<exists>xs'. dropWhile P (xs @ ys @ zs) = xs' @ ys @ zs"
proof (cases "\<forall>x\<in>set xs. P x")
  case True
  from assms obtain y ys' where ys: "ys = y # ys'" and "\<not> P y"
    by (cases ys) auto
  with True have "dropWhile P (xs @ ys @ zs) = [] @ ys @ zs"
    by (simp add: dropWhile_append)
  then show ?thesis by blast
next
  case False
  then have "dropWhile P (xs @ ys @ zs) = dropWhile P xs @ ys @ zs"
    by (auto simp: dropWhile_append)
  then show ?thesis by blast
qed

lemma trim_keeps_inner:
  assumes "mid \<noteq> []" and "\<forall>c\<in>set mid. \<not> isWhiteSpace c"
  shows "\<exists>pre' post'. trim (pre @ mid @ post) = pre' @ mid @ post'"
proof -
  from assms have h: "\<not> isWhiteSpace (hd mid)" and l: "\<not> isWhiteSpace (last mid)"
    by simp_all
  from dropWhile_keeps_inner [where P = isWhiteSpace and ys = mid and xs = pre and zs = post] assms(1) h
  obtain pre' where a: "dropWhile isWhiteSpace (pre @ mid @ post) = pre' @ mid @ post"
    by blast
  have r: "rev mid \<noteq> []" "\<not> isWhiteSpace (hd (rev mid))"
    using assms(1) l by (simp_all add: hd_rev)
  from dropWhile_keeps_inner [where P = isWhiteSpace and ys = "rev mid" and xs = "rev post" and zs = "rev pre'"] r
  obtain zs' where b: "dropWhile isWhiteSpace (rev post @ rev mid @ rev pre') = zs' @ rev mid @ rev pre'"
    by blast
  have "trim (pre @ mid @ post) = pre' @ mid @ rev zs'"
    unfolding trim_def a using b by simp
  then show ?thesis by blast
qed

lemma toUpperChar_white: "isWhiteSpace c \<Longrightarrow> toUpperChar c = c"
  unfolding isWhiteSpace_def
  by (simp, elim disjE) (simp_all add: toUpperChar_def)

lemma forbidden_keyword_shape:
  assumes "k \<in> set FORBIDDEN_KEYWORDS"
  shows "k \<noteq> []" and "\<forall>c\<in>set k. \<not> isWhiteSpace c"
  using assms by (auto simp: FORBIDDEN_KEYWORDS_def isWhiteSpace_def)

lemma keyword_occurs_after_trim:
  assumes "k \<in> set FORBIDDEN_KEYWORDS" and "toUpperCase mid = k"
  shows "includes_str (toUpperCase (trim (pre @ mid @ post))) k"
proof -
  have ne: "mid \<noteq> []"
    using assms forbidden_keyword_shape(1) by (auto simp: toUpperCase_def)
  have nw: "\<forall>c\<in>set mid. \<not> isWhiteSpace c"
  proof
    fix c assume c: "c \<in> set mid"
    show "\<not> isWhiteSpace c"
    proof
      assume w: "isWhiteSpace c"
      then have "toUpperChar c = c" by (rule toUpperChar_white)
      with c have "c \<in> set (toUpperCase mid)"
        unfolding toUpperCase_def by force
      with assms w forbidden_keyword_shape(2) show False by blast
    qed
  qed
  from trim_keeps_inner [OF ne nw, where pre = pre and post = post]
  obtain pre' post' where "trim (pre @ mid @ post) = pre' @ mid @ post'" by blast
  then have "toUpperCase (trim (pre @ mid @ post)) = toUpperCase pre' @ k @ toUpperCase post'"
    using assms(2) by (simp add: toUpperCase_def)
  then show ?thesis unfolding includes_str_iff by blast
qed

section \<open>Classifier: forbidden keywords\<close>

text \<open>
  Claim C1. Whenever the submitted text contains a run of characters \<open>mid\<close> that spells a
  keyword \<open>k\<close> of the forbidden vocabulary up to letter case, at any position (any text
  \<open>pre\<close> before it and \<open>post\<close> after it), \<open>preValidateSQL\<close> rejects: it returns the error
  "Operation not allowed: K. Only SELECT statements are permitted." and no result, where
  \<open>K\<close> is a keyword of the vocabulary that occurs in the trimmed, upper-cased text (the
  first such keyword in vocabulary order).
\<close>

theorem preValidateSQL_rejects_forbidden:
  assumes "k \<in> set FORBIDDEN_KEYWORDS" and "toUpperCase mid = k"
  shows "\<exists>k'\<in>set FORBIDDEN_KEYWORDS.
           includes_str (toUpperCase (trim (pre @ mid @ post))) k' \<and>
           preValidateSQL (pre @ mid @ post) =
             \<lparr>error = Some (''Operation not allowed: '' @ k' @
                             ''. Only SELECT statements are permitted.''),
              result = None\<rparr>"
proof -
  let ?t = "toUpperCase (trim (pre @ mid @ post))"
  have occ: "includes_str ?t k"
    using assms by (rule keyword_occurs_after_trim)
  then have nonempty: "?t \<noteq> []"
    using forbidden_keyword_shape(1) [OF assms(1)] by (cases ?t) auto
  from occ assms(1) have "find (\<lambda>keyword. includes_str ?t keyword) FORBIDDEN_KEYWORDS \<noteq> None"
    by (auto simp: find_None_iff)
  then obtain k' where f: "find (\<lambda>keyword. includes_str ?t keyword) FORBIDDEN_KEYWORDS = Some k'"
    by blast
  then have "k' \<in> set FORBIDDEN_KEYWORDS" and "includes_str ?t k'"
    by (auto simp: find_Some_iff)
  moreover have "preValidateSQL (pre @ mid @ post) =
      \<lparr>error = Some (''Operation not allowed: '' @ k' @
                      ''. Only SELECT statements are permitted.''),
       result = None\<rparr>"
    using nonempty f by (simp add: preValidateSQL_def)
  ultimately show ?thesis by blast
qed

theorem preValidateSQL_rejects_forbidden_witness:
  "\<exists>k'\<in>set FORBIDDEN_KEYWORDS.
     includes_str (toUpperCase (trim (''select 1 from t where x = '' @ ''dRoP'' @ ''box''))) k' \<and>
     preValidateSQL (''select 1 from t where x = '' @ ''dRoP'' @ ''box'') =
       \<lparr>error = Some (''Operation not allowed: '' @ k' @
                       ''. Only SELECT statements are permitted.''),
        result = None\<rparr>"
proof -
  have a: "''DROP'' \<in> set FORBIDDEN_KEYWORDS"
    by (simp add: FORBIDDEN_KEYWORDS_def)
  have b: "toUpperCase ''dRoP'' = ''DROP''"
    by (simp add: toUpperCase_def toUpperChar_def)
  show ?thesis
    by (rule preValidateSQL_rejects_forbidden [OF a b])
qed

section \<open>Classifier: multiple statements\<close>

lemmas classifier_eval =
  preValidateSQL_def toUpperCase_def toUpperChar_def trim_def isWhiteSpace_def
  startsWith_def FORBIDDEN_KEYWORDS_def ALLOWED_STATEMENTS_def

text \<open>
  Claim C8, as the code has it. The segments of a text are the pieces between its
  statement separators \<open>;\<close>, and a segment is non-empty when trimming leaves something.
  Every text with more than one non-empty segment is rejected (an error message is
  returned and no result). In particular \<^verbatim>\<open>SELECT 1; SELECT 2;\<close> is rejected, and its
  reason is the text "Multiple statements are not allowed. Please use a single SELECT
  statement."
\<close>

theorem preValidateSQL_rejects_multiple:
  "(1 < length (filter (\<lambda>s. trim s \<noteq> []) (split (CHR '';'') sql)) \<longrightarrow>
      error (preValidateSQL sql) \<noteq> None \<and> result (preValidateSQL sql) = None) \<and>
   preValidateSQL ''SELECT 1; SELECT 2;'' =
     \<lparr>error = Some ''Multiple statements are not allowed. Please use a single SELECT statement.'',
      result = None\<rparr>"
proof
  show "1 < length (filter (\<lambda>s. trim s \<noteq> []) (split (CHR '';'') sql)) \<longrightarrow>
          error (preValidateSQL sql) \<noteq> None \<and> result (preValidateSQL sql) = None"
    by (simp add: preValidateSQL_def Let_def split: option.splits)
  show "preValidateSQL ''SELECT 1; SELECT 2;'' =
     \<lparr>error = Some ''Multiple statements are not allowed. Please use a single SELECT statement.'',
      result = None\<rparr>"
    by (simp add: classifier_eval)
qed

theorem preValidateSQL_rejects_multiple_witness:
  "1 < length (filter (\<lambda>s. trim s \<noteq> []) (split (CHR '';'') ''select a ;  select b'')) \<and>
   error (preValidateSQL ''select a ;  select b'') \<noteq> None \<and>
   result (preValidateSQL ''select a ;  select b'') = None"
proof -
  have "1 < length (filter (\<lambda>s. trim s \<noteq> []) (split (CHR '';'') ''select a ;  select b''))"
    by (simp add: trim_def isWhiteSpace_def)
  with preValidateSQL_rejects_multiple [of "''select a ;  select b''"] show ?thesis
    by blast
qed

text \<open>
  The reason the claim quotes is not the reason the code gives for
  \<^verbatim>\<open>SELECT 1; SELECT 2;\<close>.
\<close>

theorem preValidateSQL_multiple_reason:
  "error (preValidateSQL ''SELECT 1; SELECT 2;'') \<noteq> Some ''multiple statements not permitted''"
  by (simp add: classifier_eval)

section \<open>Sandbox executor: shape of a successful result\<close>

lemma length_slice0: "0 \<le> n \<Longrightarrow> length (slice0 xs n) = min (nat n) (length xs)"
  by (auto simp: slice0_def Let_def)

lemma executeSQLInSandbox_Returned:
  assumes "eng now (seedDatabase now) sql timeoutMs = Returned rs"
  shows "executeSQLInSandbox eng now sql timeoutMs maxRows =
           \<lparr>error = None,
            result = Some
              \<lparr>columns = (case slice0 rs maxRows of [] \<Rightarrow> [] | first # _ \<Rightarrow> map fst first),
               rows = map (\<lambda>r. map (\<lambda>col. property r col)
                        (case slice0 rs maxRows of [] \<Rightarrow> [] | first # _ \<Rightarrow> map fst first))
                        (slice0 rs maxRows)\<rparr>\<rparr>"
  using assms by (simp add: executeSQLInSandbox_def Let_def)

lemma executeSQLInSandbox_result_Some:
  assumes "result (executeSQLInSandbox eng now sql timeoutMs maxRows) = Some r"
  shows "\<exists>rs. eng now (seedDatabase now) sql timeoutMs = Returned rs"
  using assms
  by (cases "eng now (seedDatabase now) sql timeoutMs") (simp_all add: executeSQLInSandbox_def)

text \<open>
  Claim C7. For a row cap \<open>maxRows \<ge> 0\<close>, every successful result of the executor (a
  result is present) carries no error, each of its rows has exactly as many cells as
  there are columns, its row count is at most \<open>maxRows\<close>, and it comes from rows \<open>rs\<close>
  returned by the engine such that the result has exactly \<open>maxRows\<close> rows whenever the
  engine returned more than \<open>maxRows\<close> (the excess is dropped, no error is reported) and
  all of the engine's rows otherwise.
\<close>

theorem executeSQLInSandbox_success_shape:
  assumes "0 \<le> maxRows"
    and "result (executeSQLInSandbox eng now sql timeoutMs maxRows) = Some r"
  shows "error (executeSQLInSandbox eng now sql timeoutMs maxRows) = None \<and>
         (\<forall>cells\<in>set (rows r). length cells = length (columns r)) \<and>
         int (length (rows r)) \<le> maxRows \<and>
         (\<exists>rs. eng now (seedDatabase now) sql timeoutMs = Returned rs \<and>
               (maxRows < int (length rs) \<longrightarrow> int (length (rows r)) = maxRows) \<and>
               (int (length rs) \<le> maxRows \<longrightarrow> length (rows r) = length rs))"
proof -
  from assms(2) obtain rs where rs: "eng now (seedDatabase now) sql timeoutMs = Returned rs"
    using executeSQLInSandbox_result_Some by blast
  note ex = executeSQLInSandbox_Returned [where eng = eng and now = now and sql = sql and timeoutMs = timeoutMs and rs = rs and maxRows = maxRows, OF rs]
  from ex assms(2) have r: "r =
      \<lparr>columns = (case slice0 rs maxRows of [] \<Rightarrow> [] | first # _ \<Rightarrow> map fst first),
       rows = map (\<lambda>r. map (\<lambda>col. property r col)
                (case slice0 rs maxRows of [] \<Rightarrow> [] | first # _ \<Rightarrow> map fst first))
                (slice0 rs maxRows)\<rparr>"
    by simp
  have len: "length (rows r) = min (nat maxRows) (length rs)"
    using assms(1) by (simp add: r length_slice0)
  have "error (executeSQLInSandbox eng now sql timeoutMs maxRows) = None"
    using ex by simp
  moreover have "\<forall>cells\<in>set (rows r). length cells = length (columns r)"
    by (auto simp: r)
  moreover have "int (length (rows r)) \<le> maxRows"
    using assms(1) len by simp
  moreover have "maxRows < int (length rs) \<longrightarrow> int (length (rows r)) = maxRows"
    using assms(1) len by auto
  moreover have "int (length rs) \<le> maxRows \<longrightarrow> length (rows r) = length rs"
    using assms(1) len by auto
  ultimately show ?thesis using rs by blast
qed

lemmas sandbox_eval =
  executeSQLInSandbox_def tableScanEngine_def seedDatabase_def seedUser_def seedProduct_def
  slice0_def property_def

theorem executeSQLInSandbox_success_shape_witness:
  "(0::int) \<le> 2 \<and>
   result (executeSQLInSandbox tableScanEngine ''2025-08-28 16:31:14'' ''SELECT * FROM users;'' 5000 2) =
     Some \<lparr>columns = [''id'', ''name'', ''email'', ''age'', ''created_at''],
           rows = [[JNum ''1'', JStr ''John Doe'', JStr ''john@example.com'', JNum ''30'',
                    JStr ''2025-08-28 16:31:14''],
                   [JNum ''2'', JStr ''Jane Smith'', JStr ''jane@example.com'', JNum ''25'',
                    JStr ''2025-08-28 16:31:14'']]\<rparr> \<and>
   error (executeSQLInSandbox tableScanEngine ''2025-08-28 16:31:14'' ''SELECT * FROM users;'' 5000 2) = None \<and>
   int (length (rows \<lparr>columns = [''id'', ''name'', ''email'', ''age'', ''created_at''],
           rows = [[JNum ''1'', JStr ''John Doe'', JStr ''john@example.com'', JNum ''30'',
                    JStr ''2025-08-28 16:31:14''],
                   [JNum ''2'', JStr ''Jane Smith'', JStr ''jane@example.com'', JNum ''25'',
                    JStr ''2025-08-28 16:31:14'']]\<rparr>)) \<le> 2"
proof -
  have a: "(0::int) \<le> 2" by simp
  have b: "result (executeSQLInSandbox tableScanEngine ''2025-08-28 16:31:14'' ''SELECT * FROM users;'' 5000 2) =
     Some \<lparr>columns = [''id'', ''name'', ''email'', ''age'', ''created_at''],
           rows = [[JNum ''1'', JStr ''John Doe'', JStr ''john@example.com'', JNum ''30'',
                    JStr ''2025-08-28 16:31:14''],
                   [JNum ''2'', JStr ''Jane Smith'', JStr ''jane@example.com'', JNum ''25'',
                    JStr ''2025-08-28 16:31:14'']]\<rparr>"
    by (simp add: sandbox_eval)
  from executeSQLInSandbox_success_shape
         [where eng = tableScanEngine and now = "''2025-08-28 16:31:14''"
            and sql = "''SELECT * FROM users;''" and timeoutMs = 5000 and maxRows = 2, OF a b] a b
  show ?thesis
    by simp
qed

text \<open>
  The seeded \<open>users\<close> table through the whole pipeline: the classifier lets the query
  through and the executor returns the five seeded rows under the five declared columns.
\<close>

lemma run_select_users:
  "run tableScanEngine ''2025-08-28 16:31:14'' ''SELECT * FROM users;'' 5000 100 =
     \<lparr>error = None,
      result = Some
        \<lparr>columns = [''id'', ''name'', ''email'', ''age'', ''created_at''],
         rows =
           [[JNum ''1'', JStr ''John Doe'', JStr ''john@example.com'', JNum ''30'',
             JStr ''2025-08-28 16:31:14''],
            [JNum ''2'', JStr ''Jane Smith'', JStr ''jane@example.com'', JNum ''25'',
             JStr ''2025-08-28 16:31:14''],
            [JNum ''3'', JStr ''Bob Johnson'', JStr ''bob@example.com'', JNum ''35'',
             JStr ''2025-08-28 16:31:14''],
            [JNum ''4'', JStr ''Alice Wilson'', JStr ''alice@example.com'', JNum ''28'',
             JStr ''2025-08-28 16:31:14''],
            [JNum ''5'', JStr ''Charlie Brown'', JStr ''charlie@example.com'', JNum ''32'',
             JStr ''2025-08-28 16:31:14'']]\<rparr>\<rparr>"
proof -
  have "error (preValidateSQL ''SELECT * FROM users;'') = None"
    by (simp add: classifier_eval)
  then show ?thesis
    by (simp add: run_def sandbox_eval)
qed

section \<open>Sandbox executor: a row cap of zero\<close>

text \<open>
  Claim C10. The column names of a successful result are the keys of the first row of
  the list already cut to \<open>maxRows\<close>. So whenever the engine returns rows, however many
  and with whatever columns, the executor called with \<open>maxRows = 0\<close> returns success with
  an empty column sequence and an empty row sequence.
\<close>

theorem executeSQLInSandbox_maxRows_zero:
  assumes "eng now (seedDatabase now) sql timeoutMs = Returned rs"
  shows "executeSQLInSandbox eng now sql timeoutMs 0 =
           \<lparr>error = None, result = Some \<lparr>columns = [], rows = []\<rparr>\<rparr> \<and>
         (\<exists>r. result (executeSQLInSandbox eng now sql timeoutMs maxRows) = Some r \<and>
              columns r = (case slice0 rs maxRows of [] \<Rightarrow> [] | first # _ \<Rightarrow> map fst first))"
proof -
  have "slice0 rs 0 = []"
    by (simp add: slice0_def)
  then have "executeSQLInSandbox eng now sql timeoutMs 0 =
      \<lparr>error = None, result = Some \<lparr>columns = [], rows = []\<rparr>\<rparr>"
    using executeSQLInSandbox_Returned [where eng = eng and now = now and sql = sql and timeoutMs = timeoutMs and rs = rs and maxRows = 0, OF assms] by simp
  moreover have "\<exists>r. result (executeSQLInSandbox eng now sql timeoutMs maxRows) = Some r \<and>
      columns r = (case slice0 rs maxRows of [] \<Rightarrow> [] | first # _ \<Rightarrow> map fst first)"
    using executeSQLInSandbox_Returned [where eng = eng and now = now and sql = sql and timeoutMs = timeoutMs and rs = rs and maxRows = maxRows, OF assms] by simp
  ultimately show ?thesis by blast
qed

theorem executeSQLInSandbox_maxRows_zero_witness:
  "executeSQLInSandbox tableScanEngine ''2025-08-28 16:31:14'' ''SELECT * FROM users;'' 5000 0 =
     \<lparr>error = None, result = Some \<lparr>columns = [], rows = []\<rparr>\<rparr>"
proof -
  have "tableScanEngine ''2025-08-28 16:31:14'' (seedDatabase ''2025-08-28 16:31:14'')
          ''SELECT * FROM users;'' 5000 =
        Returned (users (seedDatabase ''2025-08-28 16:31:14''))"
    by (simp add: tableScanEngine_def)
  from executeSQLInSandbox_maxRows_zero
         [where eng = tableScanEngine and now = "''2025-08-28 16:31:14''"
            and sql = "''SELECT * FROM users;''" and timeoutMs = 5000, OF this]
  show ?thesis
    by blast
qed

section \<open>Sandbox executor: repeated execution\<close>





text \<open>
  A query outside that condition: \<^verbatim>\<open>SELECT random();\<close> passes the classifier, and two
  executions at the same clock reading in which the random source yields different
  numbers give different results.
\<close>

lemma executeSQLInSandbox_random:
  "error (preValidateSQL ''SELECT random();'') = None \<and>
   executeSQLInSandbox (randomEngine ''4611686018427387904'') ''2025-08-28 16:31:14''
     ''SELECT random();'' 5000 1000 \<noteq>
   executeSQLInSandbox (randomEngine ''-1152921504606846976'') ''2025-08-28 16:31:14''
     ''SELECT random();'' 5000 1000"
proof -
  have "error (preValidateSQL ''SELECT random();'') = None"
    by (simp add: classifier_eval)
  moreover have
    "executeSQLInSandbox (randomEngine ''4611686018427387904'') ''2025-08-28 16:31:14''
       ''SELECT random();'' 5000 1000 \<noteq>
     executeSQLInSandbox (randomEngine ''-1152921504606846976'') ''2025-08-28 16:31:14''
       ''SELECT random();'' 5000 1000"
    by (simp add: executeSQLInSandbox_def randomEngine_def slice0_def property_def)
  ultimately show ?thesis by blast
qed


section \<open>Result normalizer: column order\<close>

lemmas json_eval =
  normalizeResult_def sortBy_def stringifyRow_def stringifyValue_def arrayJSON_def
  quoteJSON_def escapeChar_def

text \<open>
  Claim C2, evaluated on the code. The result with columns \<open>a, b\<close> and the single row
  \<open>1, 2\<close>, and the same result with its two columns swapped (columns \<open>b, a\<close>, row \<open>2, 1\<close>)
  get different comparison keys under every collation: the normalizer sorts the column
  names but leaves the cells of each row in their original order.
\<close>

theorem normalizeResult_column_shuffle:
  "normalizeResult localeCompare \<lparr>columns = [''a'', ''b''], rows = [[JNum ''1'', JNum ''2'']]\<rparr> \<noteq>
   normalizeResult localeCompare \<lparr>columns = [''b'', ''a''], rows = [[JNum ''2'', JNum ''1'']]\<rparr>"
  by (simp add: json_eval)

section \<open>Result normalizer: what the key is independent of\<close>

text \<open>
  Sorting with a compare function that is a total order (any two texts are comparable,
  comparability is transitive, and two texts comparable both ways are the same text)
  gives a list that depends only on which elements there are and how often.
\<close>

lemma mset_insertBy: "mset (insertBy cmp x ys) = add_mset x (mset ys)"
  by (induction ys) simp_all

lemma mset_sortBy: "mset (sortBy cmp xs) = mset xs"
  unfolding sortBy_def by (induction xs) (simp_all add: mset_insertBy)

lemma set_insertBy: "set (insertBy cmp x ys) = insert x (set ys)"
  by (induction ys) auto

lemma ordered_insertBy:
  assumes total: "\<And>a b. cmp a b \<le> 0 \<or> cmp b a \<le> 0"
    and trans: "\<And>a b c. cmp a b \<le> 0 \<Longrightarrow> cmp b c \<le> 0 \<Longrightarrow> cmp a c \<le> 0"
    and "sorted_wrt (\<lambda>a b. cmp a b \<le> 0) ys"
  shows "sorted_wrt (\<lambda>a b. cmp a b \<le> 0) (insertBy cmp x ys)"
  using assms(3)
proof (induction ys)
  case Nil
  show ?case by simp
next
  case (Cons y ys)
  show ?case
  proof (cases "cmp x y \<le> 0")
    case True
    with Cons.prems trans show ?thesis by auto
  next
    case False
    with total have "cmp y x \<le> 0" by blast
    with False Cons show ?thesis by (auto simp: set_insertBy)
  qed
qed

lemma ordered_sortBy:
  assumes "\<And>a b. cmp a b \<le> 0 \<or> cmp b a \<le> 0"
    and "\<And>a b c. cmp a b \<le> 0 \<Longrightarrow> cmp b c \<le> 0 \<Longrightarrow> cmp a c \<le> 0"
  shows "sorted_wrt (\<lambda>a b. cmp a b \<le> 0) (sortBy cmp xs)"
  unfolding sortBy_def
proof (induction xs)
  case Nil
  show ?case by simp
next
  case (Cons x xs)
  from ordered_insertBy [of cmp "foldr (insertBy cmp) xs []" x, OF assms Cons.IH]
  show ?case by simp
qed

lemma ordered_unique:
  assumes antisym: "\<And>a b. cmp a b \<le> 0 \<Longrightarrow> cmp b a \<le> 0 \<Longrightarrow> a = b"
    and "sorted_wrt (\<lambda>a b. cmp a b \<le> 0) xs"
    and "sorted_wrt (\<lambda>a b. cmp a b \<le> 0) ys"
    and "mset xs = mset ys"
  shows "xs = ys"
  using assms(2-)
proof (induction xs arbitrary: ys)
  case Nil
  then show ?case by simp
next
  case (Cons x xs)
  from Cons.prems(3) obtain y ys' where ys: "ys = y # ys'"
    by (cases ys) auto
  have "x = y"
  proof (rule ccontr)
    assume ne: "x \<noteq> y"
    have "x \<in># mset ys" using Cons.prems(3) by (metis list.set_intros(1) set_mset_mset)
    with ne ys have "x \<in> set ys'" by simp
    with Cons.prems(2) ys have yx: "cmp y x \<le> 0" by simp
    have "y \<in># mset (x # xs)" using Cons.prems(3) ys by (metis list.set_intros(1) set_mset_mset)
    with ne have "y \<in> set xs" by simp
    with Cons.prems(1) have "cmp x y \<le> 0" by simp
    with yx antisym ne show False by blast
  qed
  moreover from this Cons.prems ys have "xs = ys'"
    by (intro Cons.IH) simp_all
  ultimately show ?case using ys by simp
qed

lemma map_insertBy:
  "map f (insertBy (\<lambda>a b. cmp (f a) (f b)) x ys) = insertBy cmp (f x) (map f ys)"
  by (induction ys) simp_all

lemma map_sortBy:
  "map f (sortBy (\<lambda>a b. cmp (f a) (f b)) xs) = sortBy cmp (map f xs)"
  unfolding sortBy_def by (induction xs) (simp_all add: map_insertBy)

text \<open>
  The comparison key does not depend on the order of the rows, nor on the order in
  which the column names are listed, as long as every cell stays where it is in its
  row.
\<close>

lemma normalizeResult_row_order:
  assumes total: "\<And>a b. localeCompare a b \<le> 0 \<or> localeCompare b a \<le> 0"
    and trans: "\<And>a b c. localeCompare a b \<le> 0 \<Longrightarrow> localeCompare b c \<le> 0 \<Longrightarrow> localeCompare a c \<le> 0"
    and antisym: "\<And>a b. localeCompare a b \<le> 0 \<Longrightarrow> localeCompare b a \<le> 0 \<Longrightarrow> a = b"
    and cols: "mset (columns res) = mset (columns res')"
    and rws: "mset (rows res) = mset (rows res')"
  shows "normalizeResult localeCompare res = normalizeResult localeCompare res'"
proof -
  have "sort (columns res') = sort (columns res)"
    by (rule properties_for_sort) (simp_all add: cols)
  moreover have "sortBy localeCompare (map stringifyRow (rows res)) =
                 sortBy localeCompare (map stringifyRow (rows res'))"
  proof (rule ordered_unique [of localeCompare])
    fix a b
    assume "localeCompare a b \<le> 0" and "localeCompare b a \<le> 0"
    then show "a = b" by (rule antisym)
  next
    show "sorted_wrt (\<lambda>a b. localeCompare a b \<le> 0)
            (sortBy localeCompare (map stringifyRow (rows res)))"
      by (rule ordered_sortBy [OF total trans])
  next
    show "sorted_wrt (\<lambda>a b. localeCompare a b \<le> 0)
            (sortBy localeCompare (map stringifyRow (rows res')))"
      by (rule ordered_sortBy [OF total trans])
  next
    show "mset (sortBy localeCompare (map stringifyRow (rows res))) =
          mset (sortBy localeCompare (map stringifyRow (rows res')))"
      using rws by (metis mset_sortBy mset_map)
  qed
  ultimately show ?thesis
    by (simp add: normalizeResult_def map_sortBy)
qed

lemma codeUnitCompare_total_order:
  "codeUnitCompare a b \<le> 0 \<or> codeUnitCompare b a \<le> 0"
  "codeUnitCompare a b \<le> 0 \<Longrightarrow> codeUnitCompare b c \<le> 0 \<Longrightarrow> codeUnitCompare a c \<le> 0"
  "codeUnitCompare a b \<le> 0 \<Longrightarrow> codeUnitCompare b a \<le> 0 \<Longrightarrow> a = b"
  by (auto simp: codeUnitCompare_def split: if_splits)

lemma normalizeResult_row_order_example:
  "normalizeResult codeUnitCompare
     \<lparr>columns = [''b'', ''a''], rows = [[JNum ''3'', JNum ''4''], [JNum ''1'', JNum ''2'']]\<rparr> =
   normalizeResult codeUnitCompare
     \<lparr>columns = [''a'', ''b''], rows = [[JNum ''1'', JNum ''2''], [JNum ''3'', JNum ''4'']]\<rparr>"
  by (rule normalizeResult_row_order [OF codeUnitCompare_total_order]) simp_all

section \<open>Feedback cache\<close>

text \<open>
  Claim C9. The TTL is one hour, in milliseconds. A lookup of a key whose entry has
  reached the TTL (its age \<open>now - timestamp\<close> is the TTL or more, so in particular when
  the age exceeds the TTL) reports a miss and leaves the cache without that key and
  otherwise unchanged; a lookup of an entry younger than the TTL returns the stored
  payload and leaves the cache as it is. \<open>cacheResponse\<close> stores the payload with the
  current timestamp under the key whatever was there before, touches no other key, and
  a lookup right after it, within the TTL, returns that payload.
\<close>

theorem cache_get_put:
  "CACHE_TTL = 3600000 \<and>
   (cache key = Some entry \<and> CACHE_TTL \<le> now - timestamp entry \<longrightarrow>
      fst (getCachedResponse cache key now) = None \<and>
      snd (getCachedResponse cache key now) key = None \<and>
      (\<forall>other. other \<noteq> key \<longrightarrow> snd (getCachedResponse cache key now) other = cache other)) \<and>
   (cache key = Some entry \<and> now - timestamp entry < CACHE_TTL \<longrightarrow>
      getCachedResponse cache key now = (Some (response entry), cache)) \<and>
   (cache key = None \<longrightarrow> getCachedResponse cache key now = (None, cache)) \<and>
   cacheResponse cache key payload now key = Some \<lparr>response = payload, timestamp = now\<rparr> \<and>
   (\<forall>other. other \<noteq> key \<longrightarrow> cacheResponse cache key payload now other = cache other) \<and>
   (later - now < CACHE_TTL \<longrightarrow>
      fst (getCachedResponse (cacheResponse cache key payload now) key later) = Some payload)"
  by (simp add: CACHE_TTL_def getCachedResponse_def cacheResponse_def)

theorem cache_get_put_witness:
  "fst (getCachedResponse
         [''k'' \<mapsto> \<lparr>response = getFallbackResponse exampleContext, timestamp = 1000\<rparr>]
         ''k'' 3601001) = None \<and>
   snd (getCachedResponse
         [''k'' \<mapsto> \<lparr>response = getFallbackResponse exampleContext, timestamp = 1000\<rparr>]
         ''k'' 3601001) ''k'' = None \<and>
   getCachedResponse
     [''k'' \<mapsto> \<lparr>response = getFallbackResponse exampleContext, timestamp = 1000\<rparr>]
     ''k'' 3600999 =
     (Some (getFallbackResponse exampleContext),
      [''k'' \<mapsto> \<lparr>response = getFallbackResponse exampleContext, timestamp = 1000\<rparr>]) \<and>
   fst (getCachedResponse
         (cacheResponse Map.empty ''k'' (getFallbackResponse exampleContext) 1000)
         ''k'' 2000) = Some (getFallbackResponse exampleContext)"
proof -
  let ?e = "\<lparr>response = getFallbackResponse exampleContext, timestamp = 1000\<rparr>"
  have old: "[''k'' \<mapsto> ?e] ''k'' = Some ?e \<and> CACHE_TTL \<le> 3601001 - timestamp ?e"
    by (simp add: CACHE_TTL_def)
  have young: "[''k'' \<mapsto> ?e] ''k'' = Some ?e \<and> 3600999 - timestamp ?e < CACHE_TTL"
    by (simp add: CACHE_TTL_def)
  have fresh: "(2000::int) - 1000 < CACHE_TTL"
    by (simp add: CACHE_TTL_def)
  from cache_get_put [where cache = "[''k'' \<mapsto> ?e]" and key = "''k''" and entry = ?e and now = 3601001] old
  have a: "fst (getCachedResponse [''k'' \<mapsto> ?e] ''k'' 3601001) = None"
    and b: "snd (getCachedResponse [''k'' \<mapsto> ?e] ''k'' 3601001) ''k'' = None"
    by blast+
  from cache_get_put [where cache = "[''k'' \<mapsto> ?e]" and key = "''k''" and entry = ?e and now = 3600999] young
  have c: "getCachedResponse [''k'' \<mapsto> ?e] ''k'' 3600999 =
             (Some (getFallbackResponse exampleContext), [''k'' \<mapsto> ?e])"
    by simp
  from cache_get_put [where cache = Map.empty and key = "''k''" and now = 1000 and later = 2000
                        and payload = "getFallbackResponse exampleContext"] fresh
  have d: "fst (getCachedResponse
             (cacheResponse Map.empty ''k'' (getFallbackResponse exampleContext) 1000)
             ''k'' 2000) = Some (getFallbackResponse exampleContext)"
    by blast
  from a b c d show ?thesis by blast
qed

section \<open>The retry loop\<close>

lemma callAI_loop_done:
  "\<not> attempt \<le> maxRetries config \<Longrightarrow>
   callAI_loop config service ctx attempt lastError = (Inl lastError, [])"
  by (simp add: callAI_loop.simps)

lemma callAI_loop_Ok:
  "attempt \<le> maxRetries config \<Longrightarrow> service attempt = Ok data_response \<Longrightarrow>
   callAI_loop config service ctx attempt lastError =
     (Inr (parseAIResponse
             (case data_response of Some (c # cs) \<Rightarrow> c # cs | _ \<Rightarrow> ''No response from AI'')
             ctx),
      [Fetch attempt])"
  by (simp add: callAI_loop.simps)

lemma callAI_loop_failed:
  assumes "attempt \<le> maxRetries config" and "failed (service attempt)"
  shows "callAI_loop config service ctx attempt lastError =
           (fst (callAI_loop config service ctx (attempt + 1)
                   (attemptError config (service attempt))),
            Fetch attempt # (if attempt < maxRetries config then [Wait 2000] else []) @
            snd (callAI_loop config service ctx (attempt + 1)
                   (attemptError config (service attempt))))"
  using assms
  by (cases "service attempt")
     (simp_all add: callAI_loop.simps [of config service ctx attempt] failed_def
        split: prod.splits)

lemma fetches_simps:
  "fetches [] = 0"
  "fetches (Fetch n # es) = Suc (fetches es)"
  "fetches (Wait d # es) = fetches es"
  "fetches (CacheSet k # es) = fetches es"
  "fetches (es @ es') = fetches es + fetches es'"
  by (simp_all add: fetches_def)

lemma inserts_simps:
  "inserts [] = 0"
  "inserts (Fetch n # es) = inserts es"
  "inserts (Wait d # es) = inserts es"
  "inserts (CacheSet k # es) = Suc (inserts es)"
  "inserts (es @ es') = inserts es + inserts es'"
  by (simp_all add: inserts_def)

lemma callAI_loop_effects:
  "int (fetches (snd (callAI_loop config service ctx attempt lastError)))
     \<le> max 0 (maxRetries config + 1 - attempt) \<and>
   inserts (snd (callAI_loop config service ctx attempt lastError)) = 0"
proof (induction "nat (maxRetries config + 1 - attempt)" arbitrary: attempt lastError)
  case 0
  then have "\<not> attempt \<le> maxRetries config" by simp
  then show ?case
    by (simp add: callAI_loop_done fetches_simps inserts_simps)
next
  case (Suc m)
  then have le: "attempt \<le> maxRetries config" by simp
  show ?case
  proof (cases "failed (service attempt)")
    case True
    have m: "m = nat (maxRetries config + 1 - (attempt + 1))"
      using Suc.hyps(2) by simp
    from Suc.hyps(1) [OF m, of "attemptError config (service attempt)"] le
    show ?thesis
      by (simp add: callAI_loop_failed [where service = service, OF le True] fetches_simps inserts_simps)
  next
    case False
    then obtain d where "service attempt = Ok d"
      by (cases "service attempt") (simp_all add: failed_def)
    with le show ?thesis
      by (simp add: callAI_loop_Ok fetches_simps inserts_simps)
  qed
qed

lemma callAI_loop_all_failed:
  assumes "\<forall>n. attempt \<le> n \<and> n \<le> maxRetries config \<longrightarrow> failed (service n)"
  shows "\<exists>message. fst (callAI_loop config service ctx attempt lastError) = Inl message"
  using assms
proof (induction "nat (maxRetries config + 1 - attempt)" arbitrary: attempt lastError)
  case 0
  then have "\<not> attempt \<le> maxRetries config" by simp
  then show ?case
    by (simp add: callAI_loop_done)
next
  case (Suc m)
  then have le: "attempt \<le> maxRetries config" by simp
  with Suc.prems have f: "failed (service attempt)" by simp
  have m: "m = nat (maxRetries config + 1 - (attempt + 1))"
    using Suc.hyps(2) by simp
  have rest: "\<forall>n. attempt + 1 \<le> n \<and> n \<le> maxRetries config \<longrightarrow> failed (service n)"
    using Suc.prems by simp
  from Suc.hyps(1) [OF m rest, of "attemptError config (service attempt)"]
  show ?case
    by (simp add: callAI_loop_failed [where service = service, OF le f])
qed

lemma callAI_loop_first_Ok:
  assumes "attempt \<le> k" and "k \<le> maxRetries config"
    and "\<forall>n. attempt \<le> n \<and> n < k \<longrightarrow> failed (service n)"
    and "service k = Ok data_response"
  shows "fst (callAI_loop config service ctx attempt lastError) =
           Inr (parseAIResponse
                  (case data_response of Some (c # cs) \<Rightarrow> c # cs | _ \<Rightarrow> ''No response from AI'')
                  ctx)"
  using assms
proof (induction "nat (k - attempt)" arbitrary: attempt lastError)
  case 0
  then have "attempt = k" by simp
  with 0 show ?case
    by (simp add: callAI_loop_Ok)
next
  case (Suc m)
  then have lt: "attempt < k" by simp
  with Suc.prems have le: "attempt \<le> maxRetries config" and f: "failed (service attempt)"
    by simp_all
  have m: "m = nat (k - (attempt + 1))"
    using Suc.hyps(2) by simp
  have rest: "\<forall>n. attempt + 1 \<le> n \<and> n < k \<longrightarrow> failed (service n)"
    using Suc.prems by simp
  from lt have le': "attempt + 1 \<le> k" by simp
  from Suc.hyps(1) [OF m le' Suc.prems(2) rest Suc.prems(4), of "attemptError config (service attempt)"]
  show ?case
    by (simp add: callAI_loop_failed [where service = service, OF le f])
qed

lemma callAI_loop_some_Ok:
  assumes "attempt \<le> k" and "k \<le> maxRetries config" and "\<not> failed (service k)"
  shows "\<exists>resp. fst (callAI_loop config service ctx attempt lastError) = Inr resp"
  using assms
proof (induction "nat (k - attempt)" arbitrary: attempt lastError)
  case 0
  then have "attempt = k" by simp
  moreover from 0 obtain d where "service k = Ok d"
    by (cases "service k") (simp_all add: failed_def)
  ultimately show ?case using 0
    by (simp add: callAI_loop_Ok)
next
  case (Suc m)
  then have lt: "attempt < k" by simp
  with Suc.prems have le: "attempt \<le> maxRetries config" by simp
  show ?case
  proof (cases "failed (service attempt)")
    case True
    have m: "m = nat (k - (attempt + 1))"
      using Suc.hyps(2) by simp
    from lt have le': "attempt + 1 \<le> k" by simp
    from Suc.hyps(1) [OF m le' Suc.prems(2) Suc.prems(3), of "attemptError config (service attempt)"]
    show ?thesis
      by (simp add: callAI_loop_failed [where service = service, OF le True])
  next
    case False
    then obtain d where "service attempt = Ok d"
      by (cases "service attempt") (simp_all add: failed_def)
    with le show ?thesis
      by (simp add: callAI_loop_Ok)
  qed
qed

section \<open>Feedback orchestrator\<close>

lemma generateFeedback_hit:
  assumes "fst (getCachedResponse cache (createCacheKey ctx) lookupTime) = Some hit"
  shows "generateFeedback config service lookupTime insertTime ctx cache = (hit, cache, [])"
proof -
  from assms have "getCachedResponse cache (createCacheKey ctx) lookupTime = (Some hit, cache)"
    by (auto simp: getCachedResponse_def split: option.splits if_splits)
  then show ?thesis
    by (simp add: generateFeedback_def)
qed

lemma generateFeedback_miss:
  assumes "fst (getCachedResponse cache (createCacheKey ctx) lookupTime) = None"
  shows "generateFeedback config service lookupTime insertTime ctx cache =
           (case callAI config service ctx of
              (Inr resp, effects) \<Rightarrow>
                (resp,
                 cacheResponse (snd (getCachedResponse cache (createCacheKey ctx) lookupTime))
                   (createCacheKey ctx) resp insertTime,
                 effects @ [CacheSet (createCacheKey ctx)])
            | (Inl message, effects) \<Rightarrow>
                (getFallbackResponse ctx,
                 snd (getCachedResponse cache (createCacheKey ctx) lookupTime), effects))"
proof -
  obtain cache1 where g: "getCachedResponse cache (createCacheKey ctx) lookupTime = (None, cache1)"
    using assms by (cases "getCachedResponse cache (createCacheKey ctx) lookupTime") simp
  show ?thesis
    unfolding generateFeedback_def Let_def g by (simp split: prod.splits sum.splits)
qed

lemma miss_leaves_no_entry:
  assumes "fst (getCachedResponse cache key now) = None"
  shows "snd (getCachedResponse cache key now) key = None"
  using assms
  by (auto simp: getCachedResponse_def split: option.splits if_splits)

lemma generateFeedback_all_failed:
  assumes "fst (getCachedResponse cache (createCacheKey ctx) lookupTime) = None"
    and "\<forall>n. 1 \<le> n \<and> n \<le> maxRetries config \<longrightarrow> failed (service n)"
  shows "generateFeedback config service lookupTime insertTime ctx cache =
           (getFallbackResponse ctx,
            snd (getCachedResponse cache (createCacheKey ctx) lookupTime),
            snd (callAI config service ctx))"
proof -
  from callAI_loop_all_failed [where service = service and attempt = 1, OF assms(2)]
  obtain message where "fst (callAI config service ctx) = Inl message"
    unfolding callAI_def by blast
  then show ?thesis
    by (cases "callAI config service ctx") (simp add: generateFeedback_miss [OF assms(1)])
qed

lemma feedback_getFallbackResponse_nonempty:
  "feedback (getFallbackResponse ctx) \<noteq> []"
  by (simp add: getFallbackResponse_def split: option.splits list.splits)

text \<open>
  The fallback rule on its own. For every context the fallback payload has a non-empty
  feedback text, and the rule has exactly the three cases of its table, whose guards
  exclude one another and cover every context: a non-empty validation error gives the
  feedback that quotes the error; otherwise a correct submission with a result gives the
  feedback that cites the row count; otherwise the fixed "tutor unavailable" feedback is
  given. When the context carries a validation error \<open>e\<close>, the fallback feedback contains
  \<open>e\<close>. And when the cache has no live entry for the context and every attempt (1 to
  \<open>maxRetries\<close>) against the reasoning service fails, \<open>generateFeedback\<close> returns that
  fallback payload, so its feedback is non-empty.
\<close>

theorem fallback_total:
  "feedback (getFallbackResponse ctx) \<noteq> [] \<and>
   (validationError ctx = Some e \<longrightarrow>
      includes_str (feedback (getFallbackResponse ctx)) e) \<and>
   (validationError ctx = Some e \<and> e \<noteq> [] \<longrightarrow>
      feedback (getFallbackResponse ctx) =
        ''I encountered an issue with your SQL query: '' @ e @
        ''. Please check your syntax and try again. Remember, only SELECT statements are allowed in this exercise.'') \<and>
   ((validationError ctx = None \<or> validationError ctx = Some []) \<and>
    isCorrect ctx \<and> userResult ctx = Some r \<longrightarrow>
      feedback (getFallbackResponse ctx) =
        ''Great job! Your query executed successfully and returned '' @
        showNat (length (rows r)) @
        '' row(s). Your SQL syntax is correct and you'' @ [CHR 0x27] @
        ''re getting real data from the database. Keep practicing with more complex queries!'') \<and>
   ((validationError ctx = None \<or> validationError ctx = Some []) \<and>
    (\<not> isCorrect ctx \<or> userResult ctx = None) \<longrightarrow>
      feedback (getFallbackResponse ctx) =
        ''Your query has been processed. The AI tutor is temporarily unavailable, but you can continue practicing. Check if your query returns the expected results.'') \<and>
   (fst (getCachedResponse cache (createCacheKey ctx) lookupTime) = None \<and>
    (\<forall>n. 1 \<le> n \<and> n \<le> maxRetries config \<longrightarrow> failed (service n)) \<longrightarrow>
      fst (generateFeedback config service lookupTime insertTime ctx cache) = getFallbackResponse ctx \<and>
      feedback (fst (generateFeedback config service lookupTime insertTime ctx cache)) \<noteq> [])"
proof (intro conjI impI)
  show "feedback (getFallbackResponse ctx) \<noteq> []"
    by (rule feedback_getFallbackResponse_nonempty)
next
  assume e: "validationError ctx = Some e"
  show "includes_str (feedback (getFallbackResponse ctx)) e"
  proof (cases e)
    case Nil
    have "feedback (getFallbackResponse ctx) = [] @ [] @ feedback (getFallbackResponse ctx)"
      by simp
    then show ?thesis unfolding Nil includes_str_iff by blast
  next
    case (Cons c cs)
    with e have "feedback (getFallbackResponse ctx) =
        ''I encountered an issue with your SQL query: '' @ e @
        ''. Please check your syntax and try again. Remember, only SELECT statements are allowed in this exercise.''"
      by (simp add: getFallbackResponse_def)
    then show ?thesis unfolding includes_str_iff by blast
  qed
next
  assume "validationError ctx = Some e \<and> e \<noteq> []"
  then show "feedback (getFallbackResponse ctx) =
        ''I encountered an issue with your SQL query: '' @ e @
        ''. Please check your syntax and try again. Remember, only SELECT statements are allowed in this exercise.''"
    by (cases e) (simp_all add: getFallbackResponse_def)
next
  assume "(validationError ctx = None \<or> validationError ctx = Some []) \<and>
          isCorrect ctx \<and> userResult ctx = Some r"
  then show "feedback (getFallbackResponse ctx) =
        ''Great job! Your query executed successfully and returned '' @
        showNat (length (rows r)) @
        '' row(s). Your SQL syntax is correct and you'' @ [CHR 0x27] @
        ''re getting real data from the database. Keep practicing with more complex queries!''"
    by (auto simp: getFallbackResponse_def)
next
  assume "(validationError ctx = None \<or> validationError ctx = Some []) \<and>
          (\<not> isCorrect ctx \<or> userResult ctx = None)"
  then show "feedback (getFallbackResponse ctx) =
        ''Your query has been processed. The AI tutor is temporarily unavailable, but you can continue practicing. Check if your query returns the expected results.''"
    by (auto simp: getFallbackResponse_def)
next
  assume a: "fst (getCachedResponse cache (createCacheKey ctx) lookupTime) = None \<and>
             (\<forall>n. 1 \<le> n \<and> n \<le> maxRetries config \<longrightarrow> failed (service n))"
  then show "fst (generateFeedback config service lookupTime insertTime ctx cache) = getFallbackResponse ctx"
    by (simp add: generateFeedback_all_failed)
next
  assume a: "fst (getCachedResponse cache (createCacheKey ctx) lookupTime) = None \<and>
             (\<forall>n. 1 \<le> n \<and> n \<le> maxRetries config \<longrightarrow> failed (service n))"
  then show "feedback (fst (generateFeedback config service lookupTime insertTime ctx cache)) \<noteq> []"
    by (simp add: generateFeedback_all_failed feedback_getFallbackResponse_nonempty)
qed

theorem fallback_total_witness:
  "validationError exampleContext = Some ''SQL Error: no such table: orders'' \<and>
   fst (getCachedResponse Map.empty (createCacheKey exampleContext) 100) = None \<and>
   includes_str (feedback (getFallbackResponse exampleContext))
     ''SQL Error: no such table: orders'' \<and>
   fst (generateFeedback exampleConfig (\<lambda>n. Aborted) 100 200 exampleContext Map.empty) =
     getFallbackResponse exampleContext \<and>
   feedback (fst (generateFeedback exampleConfig (\<lambda>n. Aborted) 100 200 exampleContext Map.empty)) \<noteq> []"
proof -
  have e: "validationError exampleContext = Some ''SQL Error: no such table: orders''"
    by (simp add: exampleContext_def)
  have m: "fst (getCachedResponse Map.empty (createCacheKey exampleContext) 100) = None"
    by (simp add: getCachedResponse_def)
  have f: "\<forall>n. 1 \<le> n \<and> n \<le> maxRetries exampleConfig \<longrightarrow> failed Aborted"
    by (simp add: failed_def)
  from fallback_total
         [where ctx = exampleContext and e = "''SQL Error: no such table: orders''"
            and cache = Map.empty and lookupTime = 100 and insertTime = 200 and config = exampleConfig
            and service = "\<lambda>n. Aborted"]
       e m f
  show ?thesis by blast
qed

section \<open>Feedback orchestrator: a cached blank answer\<close>

lemmas service_eval =
  generateFeedback_def getCachedResponse_def cacheResponse_def callAI_def callAI_loop.simps
  exampleConfig_def attemptError_def parseAIResponse_def trim_def isWhiteSpace_def Let_def

text \<open>
  Claim C6, evaluated on the code. Two calls for the same context, starting from an empty
  cache. In the first the reasoning service answers OK with a response text of three
  spaces: the text is not empty, so it is taken as the answer, trimmed to the empty text
  and cached. In the second, 100 milliseconds after the insert, every attempt against the
  service fails: the cached payload is returned without the fallback rule being
  consulted, and its feedback is the empty text.
\<close>

theorem generateFeedback_blank_answer_cached:
  "feedback (fst (generateFeedback exampleConfig (\<lambda>n. Ok (Some ''   '')) 100 200
                    exampleContext Map.empty)) = [] \<and>
   generateFeedback exampleConfig (\<lambda>n. Aborted) 300 400 exampleContext
     (fst (snd (generateFeedback exampleConfig (\<lambda>n. Ok (Some ''   '')) 100 200
                  exampleContext Map.empty))) =
     (\<lparr>feedback = [], suggestions = Some [], explanation = Some [], nextSteps = Some []\<rparr>,
      fst (snd (generateFeedback exampleConfig (\<lambda>n. Ok (Some ''   '')) 100 200
                  exampleContext Map.empty)),
      [])"
  by (simp add: service_eval CACHE_TTL_def)

section \<open>Feedback orchestrator: failure paths\<close>

text \<open>
  Claim C3, as the code has it. On a cache miss: if every attempt (1 to \<open>maxRetries\<close>)
  against the reasoning service fails, \<open>generateFeedback\<close> returns the fallback payload of
  the fixed rule; if instead some attempt \<open>k\<close> is the first to get an OK answer and that
  answer has no response text (the field is absent or the empty text), the payload
  returned is the fixed one with feedback "No response from AI" and empty suggestions,
  explanation and next steps, not the fallback payload.
\<close>

theorem generateFeedback_degraded:
  assumes "fst (getCachedResponse cache (createCacheKey ctx) lookupTime) = None"
  shows "((\<forall>n. 1 \<le> n \<and> n \<le> maxRetries config \<longrightarrow> failed (service n)) \<longrightarrow>
            fst (generateFeedback config service lookupTime insertTime ctx cache) =
              getFallbackResponse ctx) \<and>
         (1 \<le> k \<and> k \<le> maxRetries config \<and> (\<forall>n. 1 \<le> n \<and> n < k \<longrightarrow> failed (service n)) \<and>
          (service k = Ok None \<or> service k = Ok (Some [])) \<longrightarrow>
            fst (generateFeedback config service lookupTime insertTime ctx cache) =
              \<lparr>feedback = ''No response from AI'', suggestions = Some [],
               explanation = Some [], nextSteps = Some []\<rparr>)"
proof (intro conjI impI)
  assume "\<forall>n. 1 \<le> n \<and> n \<le> maxRetries config \<longrightarrow> failed (service n)"
  with assms show "fst (generateFeedback config service lookupTime insertTime ctx cache) =
      getFallbackResponse ctx"
    by (simp add: generateFeedback_all_failed)
next
  assume a: "1 \<le> k \<and> k \<le> maxRetries config \<and> (\<forall>n. 1 \<le> n \<and> n < k \<longrightarrow> failed (service n)) \<and>
             (service k = Ok None \<or> service k = Ok (Some []))"
  then obtain d where d: "service k = Ok d" and empty: "d = None \<or> d = Some []"
    by blast
  from a have k1: "1 \<le> k" and k2: "k \<le> maxRetries config"
    and before: "\<forall>n. 1 \<le> n \<and> n < k \<longrightarrow> failed (service n)"
    by simp_all
  have "fst (callAI config service ctx) =
          Inr (parseAIResponse
                 (case d of Some (c # cs) \<Rightarrow> c # cs | _ \<Rightarrow> ''No response from AI'') ctx)"
    unfolding callAI_def
    by (rule callAI_loop_first_Ok [where service = service, OF k1 k2 before d])
  moreover have "(case d of Some (c # cs) \<Rightarrow> c # cs | _ \<Rightarrow> ''No response from AI'') =
                   ''No response from AI''"
    using empty by auto
  moreover have "trim ''No response from AI'' = ''No response from AI''"
    by (simp add: trim_def isWhiteSpace_def)
  ultimately have "fst (callAI config service ctx) =
      Inr \<lparr>feedback = ''No response from AI'', suggestions = Some [],
           explanation = Some [], nextSteps = Some []\<rparr>"
    by (simp add: parseAIResponse_def)
  then show "fst (generateFeedback config service lookupTime insertTime ctx cache) =
      \<lparr>feedback = ''No response from AI'', suggestions = Some [],
       explanation = Some [], nextSteps = Some []\<rparr>"
    by (cases "callAI config service ctx") (simp add: generateFeedback_miss [OF assms])
qed

theorem generateFeedback_degraded_witness:
  "fst (getCachedResponse Map.empty (createCacheKey exampleContext) 100) = None \<and>
   fst (generateFeedback exampleConfig (\<lambda>n. Aborted) 100 200 exampleContext Map.empty) =
     getFallbackResponse exampleContext \<and>
   fst (generateFeedback exampleConfig (\<lambda>n. if n = 1 then Aborted else Ok (Some []))
          100 200 exampleContext Map.empty) =
     \<lparr>feedback = ''No response from AI'', suggestions = Some [],
      explanation = Some [], nextSteps = Some []\<rparr>"
proof -
  have m: "fst (getCachedResponse Map.empty (createCacheKey exampleContext) 100) = None"
    by (simp add: getCachedResponse_def)
  have f: "\<forall>n. 1 \<le> n \<and> n \<le> maxRetries exampleConfig \<longrightarrow> failed Aborted"
    by (simp add: failed_def)
  have s: "(1::int) \<le> 2 \<and> 2 \<le> maxRetries exampleConfig \<and>
           (\<forall>n::int. 1 \<le> n \<and> n < 2 \<longrightarrow> failed (if n = 1 then Aborted else Ok (Some []))) \<and>
           ((if (2::int) = 1 then Aborted else Ok (Some [])) = Ok None \<or>
            (if (2::int) = 1 then Aborted else Ok (Some [])) = Ok (Some []))"
    by (simp add: exampleConfig_def failed_def)
  from generateFeedback_degraded
         [where cache = Map.empty and ctx = exampleContext and lookupTime = 100
            and insertTime = 200 and config = exampleConfig and service = "\<lambda>n. Aborted", OF m] f
  have a: "fst (generateFeedback exampleConfig (\<lambda>n. Aborted) 100 200 exampleContext Map.empty) =
             getFallbackResponse exampleContext"
    by blast
  from generateFeedback_degraded
         [where cache = Map.empty and ctx = exampleContext and lookupTime = 100
            and insertTime = 200 and config = exampleConfig and k = 2
            and service = "\<lambda>n. if n = 1 then Aborted else Ok (Some [])", OF m] s
  have b: "fst (generateFeedback exampleConfig (\<lambda>n. if n = 1 then Aborted else Ok (Some []))
                  100 200 exampleContext Map.empty) =
             \<lparr>feedback = ''No response from AI'', suggestions = Some [],
              explanation = Some [], nextSteps = Some []\<rparr>"
    by blast
  from m a b show ?thesis by blast
qed

text \<open>
  The claim as stated fails: with an empty cache and a service whose first answer is OK
  but carries no response text, the payload returned is the "No response from AI"
  payload, which is not the fallback payload for the context.
\<close>

theorem generateFeedback_empty_response:
  "fst (generateFeedback exampleConfig (\<lambda>n. Ok None) 100 200 exampleContext Map.empty) =
     \<lparr>feedback = ''No response from AI'', suggestions = Some [],
      explanation = Some [], nextSteps = Some []\<rparr> \<and>
   fst (generateFeedback exampleConfig (\<lambda>n. Ok None) 100 200 exampleContext Map.empty) \<noteq>
     getFallbackResponse exampleContext"
proof -
  have a: "fst (generateFeedback exampleConfig (\<lambda>n. Ok None) 100 200 exampleContext Map.empty) =
     \<lparr>feedback = ''No response from AI'', suggestions = Some [],
      explanation = Some [], nextSteps = Some []\<rparr>"
    by (simp add: service_eval)
  have b: "suggestions (getFallbackResponse exampleContext) \<noteq> Some []"
    by (simp add: getFallbackResponse_def exampleContext_def)
  have "\<lparr>feedback = ''No response from AI'', suggestions = Some [],
         explanation = Some [], nextSteps = Some []\<rparr> \<noteq> getFallbackResponse exampleContext"
  proof
    assume "\<lparr>feedback = ''No response from AI'', suggestions = Some [],
         explanation = Some [], nextSteps = Some []\<rparr> = getFallbackResponse exampleContext"
    then have "suggestions \<lparr>feedback = ''No response from AI'', suggestions = Some [],
         explanation = Some [], nextSteps = Some []\<rparr> =
         suggestions (getFallbackResponse exampleContext)"
      by (rule arg_cong)
    with b show False by simp
  qed
  with a show ?thesis by simp
qed

section \<open>Feedback orchestrator: cache inserts and outbound calls\<close>

text \<open>
  Claim C5, as the code has it. Let the call return \<open>payload\<close> with the cache \<open>cache'\<close>
  and the effects \<open>effects\<close>. On a cache hit the cached payload is returned, the cache is
  unchanged and there is no outbound call and no insert. On a miss there are at most
  \<open>maxRetries\<close> outbound calls (none when \<open>maxRetries\<close> is not positive) and at most one
  insert. On a miss where some attempt gets an OK answer, the payload returned is stored
  under the context's fingerprint with the insert time, by exactly one insert, which is
  the last effect before returning. On a miss where every attempt fails, the fallback
  payload is returned and nothing is inserted: the cache has no entry under the
  fingerprint afterwards.
\<close>

theorem generateFeedback_cache_effects:
  assumes "generateFeedback config service lookupTime insertTime ctx cache = (payload, cache', effects)"
  shows "(fst (getCachedResponse cache (createCacheKey ctx) lookupTime) = Some hit \<longrightarrow>
            payload = hit \<and> cache' = cache \<and> fetches effects = 0 \<and> inserts effects = 0) \<and>
         (fst (getCachedResponse cache (createCacheKey ctx) lookupTime) = None \<longrightarrow>
            int (fetches effects) \<le> max 0 (maxRetries config) \<and> inserts effects \<le> 1 \<and>
            ((\<exists>k. 1 \<le> k \<and> k \<le> maxRetries config \<and> \<not> failed (service k)) \<longrightarrow>
               cache' (createCacheKey ctx) = Some \<lparr>response = payload, timestamp = insertTime\<rparr> \<and>
               inserts effects = 1 \<and> last effects = CacheSet (createCacheKey ctx)) \<and>
            ((\<forall>n. 1 \<le> n \<and> n \<le> maxRetries config \<longrightarrow> failed (service n)) \<longrightarrow>
               payload = getFallbackResponse ctx \<and> cache' (createCacheKey ctx) = None \<and>
               inserts effects = 0))"
proof -
  have hit_case: "payload = hit \<and> cache' = cache \<and> fetches effects = 0 \<and> inserts effects = 0"
    if h: "fst (getCachedResponse cache (createCacheKey ctx) lookupTime) = Some hit"
    using generateFeedback_hit [OF h, of config service insertTime] assms
    by (simp add: fetches_simps inserts_simps)
  have miss_case:
    "int (fetches effects) \<le> max 0 (maxRetries config) \<and> inserts effects \<le> 1 \<and>
     ((\<exists>k. 1 \<le> k \<and> k \<le> maxRetries config \<and> \<not> failed (service k)) \<longrightarrow>
        cache' (createCacheKey ctx) = Some \<lparr>response = payload, timestamp = insertTime\<rparr> \<and>
        inserts effects = 1 \<and> last effects = CacheSet (createCacheKey ctx)) \<and>
     ((\<forall>n. 1 \<le> n \<and> n \<le> maxRetries config \<longrightarrow> failed (service n)) \<longrightarrow>
        payload = getFallbackResponse ctx \<and> cache' (createCacheKey ctx) = None \<and>
        inserts effects = 0)"
    if m: "fst (getCachedResponse cache (createCacheKey ctx) lookupTime) = None"
  proof -
    obtain outcome called where c: "callAI config service ctx = (outcome, called)"
      by (cases "callAI config service ctx")
    from callAI_loop_effects [of config service ctx 1 "''AI request failed''"] c
    have fe: "int (fetches called) \<le> max 0 (maxRetries config)" and ins: "inserts called = 0"
      by (simp_all add: callAI_def)
    note gm = generateFeedback_miss [OF m, of config service insertTime]
    have one: "int (fetches effects) \<le> max 0 (maxRetries config)"
      using gm assms c fe by (cases outcome) (auto simp: fetches_simps)
    have two: "inserts effects \<le> 1"
      using gm assms c ins by (cases outcome) (auto simp: inserts_simps)
    have three:
      "cache' (createCacheKey ctx) = Some \<lparr>response = payload, timestamp = insertTime\<rparr> \<and>
       inserts effects = 1 \<and> last effects = CacheSet (createCacheKey ctx)"
      if "\<exists>k. 1 \<le> k \<and> k \<le> maxRetries config \<and> \<not> failed (service k)"
    proof -
      from that obtain k where "1 \<le> k" "k \<le> maxRetries config" "\<not> failed (service k)"
        by blast
      from callAI_loop_some_Ok [where service = service, OF this]
      obtain resp where "fst (callAI config service ctx) = Inr resp"
        unfolding callAI_def by blast
      with c have "outcome = Inr resp" by simp
      with gm assms c ins show ?thesis
        by (auto simp: inserts_simps cacheResponse_def)
    qed
    have four:
      "payload = getFallbackResponse ctx \<and> cache' (createCacheKey ctx) = None \<and>
       inserts effects = 0"
      if "\<forall>n. 1 \<le> n \<and> n \<le> maxRetries config \<longrightarrow> failed (service n)"
    proof -
      from callAI_loop_all_failed [where service = service and attempt = 1, OF that]
      obtain message where "fst (callAI config service ctx) = Inl message"
        unfolding callAI_def by blast
      with c have "outcome = Inl message" by simp
      with gm assms c ins miss_leaves_no_entry [OF m] show ?thesis
        by auto
    qed
    from one two three four show ?thesis by blast
  qed
  from hit_case miss_case show ?thesis by blast
qed

theorem generateFeedback_cache_effects_witness:
  "generateFeedback exampleConfig (\<lambda>n. if n = 1 then Aborted else Ok (Some ''Looks good. ''))
     100 200 exampleContext Map.empty =
     (\<lparr>feedback = ''Looks good.'', suggestions = Some [], explanation = Some [],
       nextSteps = Some []\<rparr>,
      [createCacheKey exampleContext \<mapsto>
         \<lparr>response = \<lparr>feedback = ''Looks good.'', suggestions = Some [], explanation = Some [],
                       nextSteps = Some []\<rparr>,
          timestamp = 200\<rparr>],
      [Fetch 1, Wait 2000, Fetch 2, CacheSet (createCacheKey exampleContext)]) \<and>
   int (fetches [Fetch 1, Wait 2000, Fetch 2, CacheSet (createCacheKey exampleContext)])
     \<le> max 0 (maxRetries exampleConfig) \<and>
   inserts [Fetch 1, Wait 2000, Fetch 2, CacheSet (createCacheKey exampleContext)] = 1"
proof -
  let ?service = "\<lambda>n::int. if n = 1 then Aborted else Ok (Some ''Looks good. '')"
  let ?payload = "\<lparr>feedback = ''Looks good.'', suggestions = Some [], explanation = Some [],
                   nextSteps = Some []\<rparr>"
  let ?effects = "[Fetch 1, Wait 2000, Fetch 2, CacheSet (createCacheKey exampleContext)]"
  have g: "generateFeedback exampleConfig ?service 100 200 exampleContext Map.empty =
             (?payload,
              [createCacheKey exampleContext \<mapsto> \<lparr>response = ?payload, timestamp = 200\<rparr>],
              ?effects)"
    by (simp add: service_eval)
  have m: "fst (getCachedResponse Map.empty (createCacheKey exampleContext) 100) = None"
    by (simp add: getCachedResponse_def)
  have ok: "\<exists>k. 1 \<le> k \<and> k \<le> maxRetries exampleConfig \<and> \<not> failed (?service k)"
    by (rule exI [of _ 2]) (simp add: exampleConfig_def failed_def)
  from generateFeedback_cache_effects [OF g] m ok
  have "int (fetches ?effects) \<le> max 0 (maxRetries exampleConfig)" and "inserts ?effects = 1"
    by blast+
  with g show ?thesis by blast
qed

text \<open>
  The claim as stated fails: with an empty cache and a service that never answers, the
  fallback payload is returned and the cache still has no entry under the fingerprint.
\<close>

theorem generateFeedback_fallback_not_cached:
  "fst (getCachedResponse Map.empty (createCacheKey exampleContext) 100) = None \<and>
   fst (generateFeedback exampleConfig (\<lambda>n. Aborted) 100 200 exampleContext Map.empty) =
     getFallbackResponse exampleContext \<and>
   fst (snd (generateFeedback exampleConfig (\<lambda>n. Aborted) 100 200 exampleContext Map.empty))
     (createCacheKey exampleContext) = None"
  by (simp add: service_eval)

end
